theory Spec2Isabelle
  imports Main
begin

section \<open>Data model\<close>

text \<open>
  Player identifiers and digits are Python integers. A piece in the public area is the
  dictionary \<^verbatim>\<open>{'number': int, 'player_id': int}\<close>. A board is a dictionary from cell
  identifiers (strings such as \<^verbatim>\<open>'1A'\<close>) to a digit or \<^verbatim>\<open>None\<close>; it is kept as an
  association list in insertion order, read with \<open>map_of\<close>. The exceptions the code
  can raise are values of \<open>py_error\<close>.
\<close>

record piece =
  number :: int
  player_id :: int

type_synonym board = "(string \<times> int option) list"

datatype py_error = IndexError | ValueError | ZeroDivisionError

section \<open>Board model\<close>

definition COL_NAMES :: "char list" where
  "COL_NAMES = [CHR ''A'', CHR ''B'', CHR ''C'', CHR ''D'', CHR ''E'', CHR ''F'']"

text \<open>\<^verbatim>\<open>int(c)\<close> for a one-character string: a decimal digit, or \<^verbatim>\<open>ValueError\<close>.\<close>

definition int_of_char :: "char \<Rightarrow> py_error + int" where
  "int_of_char c =
    (let n = (of_char c :: nat)
     in if 48 \<le> n \<and> n \<le> 57 then Inr (int n - 48) else Inl ValueError)"

text \<open>\<^verbatim>\<open>xs.index(x)\<close>: the first position of \<open>x\<close>, or \<^verbatim>\<open>ValueError\<close>.\<close>

fun list_index :: "'a list \<Rightarrow> 'a \<Rightarrow> py_error + int" where
  "list_index [] x = Inl ValueError"
| "list_index (y # ys) x =
    (if y = x then Inr 0
     else (case list_index ys x of Inl e \<Rightarrow> Inl e | Inr i \<Rightarrow> Inr (i + 1)))"

text \<open>\<^verbatim>\<open>xs[i]\<close>: a negative index counts from the end; out of range is \<^verbatim>\<open>IndexError\<close>.\<close>

definition py_getitem :: "'a list \<Rightarrow> int \<Rightarrow> py_error + 'a" where
  "py_getitem xs i =
    (if 0 \<le> i \<and> i < int (length xs) then Inr (xs ! nat i)
     else if i < 0 \<and> 0 \<le> int (length xs) + i then Inr (xs ! nat (int (length xs) + i))
     else Inl IndexError)"

text \<open>The decimal text of an integer, as an f-string prints it.\<close>

fun str_nat :: "nat \<Rightarrow> string" where
  "str_nat n =
    (if n < 10 then [char_of (48 + n)]
     else str_nat (n div 10) @ [char_of (48 + n mod 10)])"

declare str_nat.simps [simp del]

definition str_int :: "int \<Rightarrow> string" where
  "str_int i = (if i < 0 then CHR ''-'' # str_nat (nat (- i)) else str_nat (nat i))"

text \<open>\<^verbatim>\<open>get_cell_position\<close>: \<^verbatim>\<open>row = int(cell_id[0]) - 1\<close>, then
  \<^verbatim>\<open>col = COL_NAMES.index(cell_id[1])\<close>.\<close>

definition get_cell_position :: "string \<Rightarrow> py_error + (int \<times> int)" where
  "get_cell_position cell_id =
    (case py_getitem cell_id 0 of Inl e \<Rightarrow> Inl e
     | Inr c0 \<Rightarrow>
       (case int_of_char c0 of Inl e \<Rightarrow> Inl e
        | Inr d \<Rightarrow>
          (let row = d - 1
           in case py_getitem cell_id 1 of Inl e \<Rightarrow> Inl e
              | Inr c1 \<Rightarrow>
                (case list_index COL_NAMES c1 of Inl e \<Rightarrow> Inl e
                 | Inr col \<Rightarrow> Inr (row, col)))))"

text \<open>\<^verbatim>\<open>get_cell_id(row, col)\<close> is \<^verbatim>\<open>f"{row + 1}{COL_NAMES[col]}"\<close>.\<close>

definition get_cell_id :: "int \<Rightarrow> int \<Rightarrow> py_error + string" where
  "get_cell_id row col =
    (case py_getitem COL_NAMES col of Inl e \<Rightarrow> Inl e
     | Inr name \<Rightarrow> Inr (str_int (row + 1) @ [name]))"

definition get_front_cell :: "string \<Rightarrow> py_error + string" where
  "get_front_cell cell_id =
    (case get_cell_position cell_id of Inl e \<Rightarrow> Inl e
     | Inr (row, col) \<Rightarrow>
         if row = 0 then Inr ''public''
         else get_cell_id (row - 1) col)"

text \<open>
  \<^verbatim>\<open>can_move_forward(board, cell_id)\<close> returns a pair (flag, message or destination).
  \<^verbatim>\<open>cell_id not in board\<close> is \<open>map_of board cell_id = None\<close>, and
  \<^verbatim>\<open>board[cell_id] is None\<close> is \<open>map_of board cell_id = Some None\<close>.
\<close>

definition can_move_forward :: "board \<Rightarrow> string \<Rightarrow> py_error + (bool \<times> string)" where
  "can_move_forward board cell_id =
    (if map_of board cell_id = None \<or> map_of board cell_id = Some None
       then Inr (False, ''No piece at this position'')
     else (case get_front_cell cell_id of Inl e \<Rightarrow> Inl e
       | Inr front \<Rightarrow>
           if front = ''public'' then Inr (True, front)
           else if map_of board front \<noteq> None \<and> map_of board front \<noteq> Some None
             then Inr (False, ''Target cell is occupied'')
           else Inr (True, front)))"

text \<open>
  The words of the specification for the board: a cell is named by its row (1, 2 or 3)
  and its column letter, and it is occupied when the board holds a digit there.
\<close>

definition cell :: "nat \<Rightarrow> char \<Rightarrow> string" where
  "cell r k = [char_of (48 + r), k]"

definition occupied :: "board \<Rightarrow> string \<Rightarrow> bool" where
  "occupied b c = (case map_of b c of Some (Some d) \<Rightarrow> True | _ \<Rightarrow> False)"

section \<open>Duel resolver\<close>

text \<open>
  \<^verbatim>\<open>GameLogic.duel(num1, player1, num2, player2)\<close> returns the pair
  (winner or \<^verbatim>\<open>None\<close>, list of eliminated player ids). The branches are in the order of
  the source.
\<close>

definition duel :: "int \<Rightarrow> int \<Rightarrow> int \<Rightarrow> int \<Rightarrow> int option \<times> int list" where
  "duel num1 player1 num2 player2 =
    (if num1 = num2 then (None, [player1, player2])
     else if (num1 = 0 \<and> num2 \<in> set [6, 9]) \<or> (num2 = 0 \<and> num1 \<in> set [6, 9])
       then (None, [player1, player2])
     else if num1 = 8 \<and> num2 = 0 then (Some player1, [player2])
     else if num2 = 8 \<and> num1 = 0 then (Some player2, [player1])
     else if num1 < num2 then (Some player1, [player2])
     else (Some player2, [player1]))"

text \<open>
  The precedence rules as the specification words them (section 4.2), kept apart from the
  code so that the two can be compared: rule 1 equal digits, rule 2 a 0 against a 6 or 9,
  rule 3 an 8 against a 0, rule 4 the strictly smaller digit.
\<close>

datatype outcome = Both_eliminated | First_wins | Second_wins

definition precedence_rules :: "int \<Rightarrow> int \<Rightarrow> outcome" where
  "precedence_rules a b =
    (if a = b then Both_eliminated
     else if (a = 0 \<and> (b = 6 \<or> b = 9)) \<or> (b = 0 \<and> (a = 6 \<or> a = 9)) then Both_eliminated
     else if a = 8 \<and> b = 0 then First_wins
     else if b = 8 \<and> a = 0 then Second_wins
     else if a < b then First_wins
     else Second_wins)"

text \<open>What each outcome means for the value \<open>duel\<close> returns.\<close>

fun has_outcome :: "outcome \<Rightarrow> int \<Rightarrow> int \<Rightarrow> int option \<times> int list \<Rightarrow> bool" where
  "has_outcome Both_eliminated pa pb r = (r = (None, [pa, pb]))"
| "has_outcome First_wins pa pb r = (r = (Some pa, [pb]))"
| "has_outcome Second_wins pa pb r = (r = (Some pb, [pa]))"

section \<open>Settlement engine\<close>

text \<open>
  The sort key of \<^verbatim>\<open>resolve_public_area\<close>:
  \<^verbatim>\<open>order_map = {pid: idx for idx, pid in enumerate(turn_order)}\<close> (a later occurrence of
  a player overwrites an earlier one) and \<^verbatim>\<open>order_map.get(x['player_id'], 999)\<close>.
\<close>

definition order_map :: "int list \<Rightarrow> (int \<rightharpoonup> nat)" where
  "order_map turn_order =
    fold (\<lambda>(idx, pid) m. m(pid \<mapsto> idx)) (enumerate 0 turn_order) Map.empty"

definition sort_rank :: "int list \<Rightarrow> piece \<Rightarrow> int" where
  "sort_rank turn_order x =
    (case order_map turn_order (player_id x) of None \<Rightarrow> 999 | Some idx \<Rightarrow> int idx)"

text \<open>
  The \<^verbatim>\<open>while len(current_area) >= 2\<close> loop. \<^verbatim>\<open>list.sort\<close> is stable, as \<open>sort_key\<close>
  is. The two \<^verbatim>\<open>break\<close>s are the two branches that return. Next to the working set and
  the eliminated list the function keeps a log \<open>duels\<close> of the two pieces handed to each
  call of \<open>duel\<close>; the log is not part of the Python state and nothing is computed
  from it.
\<close>

function resolve_loop :: "int list \<Rightarrow> piece list \<Rightarrow> piece list \<Rightarrow> (piece \<times> piece) list
    \<Rightarrow> piece list \<times> piece list \<times> (piece \<times> piece) list" where
  "resolve_loop turn_order current_area eliminated duels =
    (if 2 \<le> length current_area then
       (let sorted_area = sort_key (sort_rank turn_order) current_area;
            p1 = sorted_area ! 0;
            p2 = sorted_area ! 1;
            (winner, eliminated_ids) =
              duel (number p1) (player_id p1) (number p2) (player_id p2);
            duels' = duels @ [(p1, p2)];
            rest = drop 2 sorted_area;
            eliminated' = eliminated @ map (\<lambda>eid.
                \<lparr>number = (if eid = player_id p1 then number p1 else number p2),
                 player_id = eid\<rparr>) eliminated_ids;
            current_area' = (case winner of
                None \<Rightarrow> rest
              | Some w \<Rightarrow> rest @ [if w = player_id p1 then p1 else p2])
        in if length current_area' < 2 then (current_area', eliminated', duels')
           else if card (set (map player_id current_area')) < 2
             then (current_area', eliminated', duels')
           else resolve_loop turn_order current_area' eliminated' duels')
     else (current_area, eliminated, duels))"
  by pat_completeness auto
termination
  by (relation "measure (\<lambda>(t, c, e, d). length c)") (auto split: option.splits)

declare resolve_loop.simps [simp del]

text \<open>
  \<^verbatim>\<open>resolve_public_area(public_area, turn_order)\<close> returns
  (updated public area, eliminated list, extra-action player or \<^verbatim>\<open>None\<close>).
\<close>

definition resolve_public_area ::
    "piece list \<Rightarrow> int list \<Rightarrow> piece list \<times> piece list \<times> int option" where
  "resolve_public_area public_area turn_order =
    (if length public_area = 0 then ([], [], None)
     else if length public_area = 1 then ([], [], Some (player_id (public_area ! 0)))
     else (case resolve_loop turn_order public_area [] [] of
             (current_area, eliminated, duels) \<Rightarrow> (current_area, eliminated, None)))"

text \<open>The calls of \<open>duel\<close> that one call of \<open>resolve_public_area\<close> makes, in order.\<close>

definition duel_calls :: "piece list \<Rightarrow> int list \<Rightarrow> (piece \<times> piece) list" where
  "duel_calls public_area turn_order =
    (if length public_area = 0 then []
     else if length public_area = 1 then []
     else (case resolve_loop turn_order public_area [] [] of
             (current_area, eliminated, duels) \<Rightarrow> duels))"

section \<open>Win detector\<close>

text \<open>
  \<^verbatim>\<open>players_data\<close> is a dictionary from player id to
  \<^verbatim>\<open>{'board': {...}, 'eliminated': [...]}\<close>, kept as an association list in insertion
  order. \<open>board_count\<close> is \<^verbatim>\<open>sum(1 for v in data['board'].values() if v is not None)\<close>.
\<close>

record player_data =
  board :: board
  eliminated :: "int list"

definition board_count :: "(string \<times> int option) list \<Rightarrow> nat" where
  "board_count b = length (filter (\<lambda>v. v \<noteq> None) (map snd b))"

definition check_winner :: "(int \<times> player_data) list \<Rightarrow> int option" where
  "check_winner players_data =
    (let active_players =
           fold (\<lambda>(pid, data) active.
                  if 0 < board_count (board data) then active @ [pid] else active)
                players_data []
     in if length active_players = 1 then Some (active_players ! 0) else None)"

text \<open>
  The words of the specification: a player is active iff their board has at least one
  occupied cell.
\<close>

definition is_active :: "player_data \<Rightarrow> bool" where
  "is_active data = (\<exists>(c, v) \<in> set (board data). v \<noteq> None)"

definition active_set :: "(int \<times> player_data) list \<Rightarrow> int set" where
  "active_set players_data = {p. \<exists>data. (p, data) \<in> set players_data \<and> is_active data}"

section \<open>Board summary\<close>

text \<open>
  \<^verbatim>\<open>get_board_summary(board, reveal_all)\<close> returns the board itself when \<^verbatim>\<open>reveal_all\<close>
  is set, and otherwise a dictionary with the value \<^verbatim>\<open>'occupied'\<close> or \<^verbatim>\<open>None\<close> for each
  cell. A value of the result is a digit (\<open>Number\<close>) or the string \<^verbatim>\<open>'occupied'\<close>.
\<close>

datatype summary_value = Number int | Occupied

definition get_board_summary ::
    "(string \<times> int option) list \<Rightarrow> bool \<Rightarrow> (string \<times> summary_value option) list" where
  "get_board_summary b reveal_all =
    (if reveal_all then map (\<lambda>(cell_id, num). (cell_id, map_option Number num)) b
     else map (\<lambda>(cell_id, num). (cell_id, if num \<noteq> None then Some Occupied else None)) b)"

section \<open>Turn advancement\<close>

text \<open>
  The row of the \<^verbatim>\<open>rooms\<close> table and the rows of \<^verbatim>\<open>room_players\<close> that
  \<^verbatim>\<open>get_room_players\<close> returns for the room (the active ones, in player order; a row
  is its \<^verbatim>\<open>user_id\<close> with its board and eliminated list). The JSON text columns are
  kept as the values they encode. The \<^verbatim>\<open>users\<close> table, where the handler adds the
  win and loss counters, is not part of the state.
\<close>

record room =
  room_status :: string
  room_current_round :: int
  room_current_turn :: int
  room_turn_order :: "int list"
  room_public_area :: "piece list"

record database =
  db_room :: room
  db_players :: "(int \<times> player_data) list"

text \<open>The two JSON bodies the end of \<^verbatim>\<open>game_action\<close> can return.\<close>

datatype response = Game_finished int | Action_processed int int

text \<open>\<^verbatim>\<open>d[k] = v\<close> on a dictionary in insertion order.\<close>

fun dict_set :: "('k \<times> 'v) list \<Rightarrow> 'k \<Rightarrow> 'v \<Rightarrow> ('k \<times> 'v) list" where
  "dict_set [] k v = [(k, v)]"
| "dict_set ((k', v') # d) k v =
    (if k' = k then (k', v) # d else (k', v') # dict_set d k v)"

definition update_room_status :: "string \<Rightarrow> database \<Rightarrow> database" where
  "update_room_status new_status db =
    db\<lparr>db_room := (db_room db)\<lparr>room_status := new_status\<rparr>\<rparr>"

definition update_room_game_state ::
    "int list \<Rightarrow> int \<Rightarrow> int \<Rightarrow> piece list \<Rightarrow> database \<Rightarrow> database" where
  "update_room_game_state order round_no turn_no area db =
    db\<lparr>db_room := (db_room db)\<lparr>room_turn_order := order, room_current_round := round_no,
      room_current_turn := turn_no, room_public_area := area\<rparr>\<rparr>"

definition update_player_board :: "int \<Rightarrow> board \<Rightarrow> int list \<Rightarrow> database \<Rightarrow> database" where
  "update_player_board uid new_board new_eliminated db =
    db\<lparr>db_players :=
      map (\<lambda>(u, row). if u = uid
             then (u, \<lparr>board = new_board, eliminated = new_eliminated\<rparr>) else (u, row))
        (db_players db)\<rparr>"

text \<open>\<^verbatim>\<open>next((p for p in players if p['user_id'] == uid), None)\<close>.\<close>

definition find_player ::
    "(int \<times> player_data) list \<Rightarrow> int \<Rightarrow> (int \<times> player_data) option" where
  "find_player players uid = List.find (\<lambda>p. fst p = uid) players"

text \<open>
  The loop \<^verbatim>\<open>for e in eliminated\<close>: the row found in \<^verbatim>\<open>players\<close> (the list read
  before the action was applied) gives the board and the eliminated list that are
  written back, the latter with the digit appended.
\<close>

definition apply_eliminated ::
    "(int \<times> player_data) list \<Rightarrow> piece list \<Rightarrow> database \<Rightarrow> database" where
  "apply_eliminated players elim db =
    fold (\<lambda>e db.
        (case find_player players (player_id e) of
           None \<Rightarrow> db
         | Some (uid, e_player) \<Rightarrow>
             update_player_board (player_id e) (board e_player)
               (eliminated e_player @ [number e]) db))
      elim db"

text \<open>
  The loop \<^verbatim>\<open>for col in GameLogic.COL_NAMES\<close> with its \<^verbatim>\<open>break\<close>: the digit goes to
  the first cell \<^verbatim>\<open>f"3{col}"\<close> for which \<^verbatim>\<open>owner_board.get(cell_id) is None\<close>, and
  nowhere when there is none.
\<close>

fun place_in_back_row :: "char list \<Rightarrow> board \<Rightarrow> int \<Rightarrow> board" where
  "place_in_back_row [] owner_board n = owner_board"
| "place_in_back_row (col # cols) owner_board n =
    (let cell_id = ''3'' @ [col]
     in if map_of owner_board cell_id = None \<or> map_of owner_board cell_id = Some None
        then dict_set owner_board cell_id (Some n)
        else place_in_back_row cols owner_board n)"

text \<open>The loop \<^verbatim>\<open>for piece in public_area\<close> over the leftover pieces.\<close>

definition return_leftover ::
    "(int \<times> player_data) list \<Rightarrow> piece list \<Rightarrow> database \<Rightarrow> database" where
  "return_leftover players leftover db =
    fold (\<lambda>p db.
        (case find_player players (player_id p) of
           None \<Rightarrow> db
         | Some (uid, owner) \<Rightarrow>
             update_player_board (player_id p)
               (place_in_back_row COL_NAMES (board owner) (number p)) (eliminated owner) db))
      leftover db"

text \<open>
  The end of \<^verbatim>\<open>game_action\<close>, from the comment \<^verbatim>\<open># Move to next turn\<close> to the last
  \<^verbatim>\<open>return\<close>, reached after an action has been applied. Its inputs are the locals of
  the handler at that point: \<open>room\<close> is the room as read at the start of the request,
  \<open>players\<close> the player rows as read before the action, \<open>area\<close> the local
  \<^verbatim>\<open>public_area\<close> after the action, and \<open>db\<close> the database after the action.
  Python's \<^verbatim>\<open>%\<close> with a positive right operand is \<open>mod\<close> on \<open>int\<close>; with an empty turn
  order it raises. \<^verbatim>\<open>if winner:\<close> holds for a player id other than 0. On that branch
  the handler sets the status and returns, without \<^verbatim>\<open>update_room_game_state\<close>.
\<close>

text \<open>
  The dictionary \<^verbatim>\<open>players_data\<close> built from the rows of \<^verbatim>\<open>get_room_players\<close>, read
  again after the settlement.
\<close>

definition players_data_of :: "(int \<times> player_data) list \<Rightarrow> (int \<times> player_data) list" where
  "players_data_of updated_players =
    fold (\<lambda>(uid, p) d. dict_set d uid \<lparr>board = board p, eliminated = eliminated p\<rparr>)
      updated_players []"

definition game_action_tail ::
    "room \<Rightarrow> (int \<times> player_data) list \<Rightarrow> piece list \<Rightarrow> database
      \<Rightarrow> py_error + (database \<times> response)" where
  "game_action_tail room players area db =
    (if length (room_turn_order room) = 0 then Inl ZeroDivisionError
     else
       (let next_turn = (room_current_turn room + 1) mod int (length (room_turn_order room));
            next_round = room_current_round room
        in if next_turn = 0 then
             (let next_round = next_round + 1;
                  (leftover, elim, extra_player) =
                    resolve_public_area area (room_turn_order room);
                  db = apply_eliminated players elim db;
                  db = return_leftover players leftover db;
                  winner = check_winner (players_data_of (db_players db))
              in (case winner of
                    None \<Rightarrow>
                      Inr (update_room_game_state (room_turn_order room) next_round
                             next_turn [] db,
                           Action_processed next_turn next_round)
                  | Some w \<Rightarrow>
                      if w \<noteq> 0
                      then Inr (update_room_status ''finished'' db, Game_finished w)
                      else Inr (update_room_game_state (room_turn_order room) next_round
                                  next_turn [] db,
                                Action_processed next_turn next_round)))
           else Inr (update_room_game_state (room_turn_order room) next_round next_turn
                       area db,
                     Action_processed next_turn next_round)))"

section \<open>Properties of the duel resolver\<close>

text \<open>
  C1. For owners \<open>pa \<noteq> pb\<close> the result of \<open>duel a pa b pb\<close> is the outcome the precedence
  rules give, taken in their order, and it is exactly one of: first wins, second wins,
  both eliminated. The function is total and deterministic as a HOL function; the
  statement holds for every pair of integers, in particular for the 100 pairs of digits
  0..9.
\<close>

theorem duel_follows_precedence_rules:
  assumes "pa \<noteq> pb"
  shows "has_outcome (precedence_rules a b) pa pb (duel a pa b pb)
    \<and> (\<forall>out. has_outcome out pa pb (duel a pa b pb) \<longleftrightarrow> out = precedence_rules a b)"
proof -
  have first: "has_outcome (precedence_rules a b) pa pb (duel a pa b pb)"
    by (auto simp add: duel_def precedence_rules_def)
  have only: "out = precedence_rules a b" if "has_outcome out pa pb (duel a pa b pb)" for out
    using that assms by (cases out; cases "precedence_rules a b") (use first in auto)
  from first only show ?thesis by blast
qed

theorem duel_follows_precedence_rules_witness:
  "(1::int) \<noteq> 2 \<and> duel 8 1 0 2 = (Some 1, [2]) \<and> duel 0 1 9 2 = (None, [1, 2])
    \<and> duel 0 1 8 2 = (Some 2, [1]) \<and> duel 0 1 7 2 = (Some 1, [2])
    \<and> precedence_rules 8 0 = First_wins"
  using duel_follows_precedence_rules [of 1 2 8 0] duel_follows_precedence_rules [of 1 2 0 9]
    duel_follows_precedence_rules [of 1 2 0 8] duel_follows_precedence_rules [of 1 2 0 7]
  by (simp add: precedence_rules_def)

section \<open>Properties of the settlement engine\<close>

lemma resolve_loop_step:
  assumes "2 \<le> length c"
  shows "\<exists>c1 en call. length c1 < length c \<and>
    resolve_loop t c e d =
      (if length c1 < 2 \<or> card (player_id ` set c1) < 2 then (c1, e @ en, d @ [call])
       else resolve_loop t c1 (e @ en) (d @ [call]))"
proof -
  define s where "s = sort_key (sort_rank t) c"
  obtain w ids where dl:
    "duel (number (s ! 0)) (player_id (s ! 0)) (number (s ! 1)) (player_id (s ! 1)) = (w, ids)"
    by (cases "duel (number (s ! 0)) (player_id (s ! 0)) (number (s ! 1)) (player_id (s ! 1))")
  define c1 where "c1 = (case w of None \<Rightarrow> drop 2 s
    | Some x \<Rightarrow> drop 2 s @ [if x = player_id (s ! 0) then s ! 0 else s ! 1])"
  define en where "en = map (\<lambda>eid.
    \<lparr>number = (if eid = player_id (s ! 0) then number (s ! 0) else number (s ! 1)),
     player_id = eid\<rparr>) ids"
  have len: "length c1 < length c"
    using assms by (auto simp add: c1_def s_def split: option.splits)
  have "resolve_loop t c e d =
      (if length c1 < 2 \<or> card (player_id ` set c1) < 2 then (c1, e @ en, d @ [(s ! 0, s ! 1)])
       else resolve_loop t c1 (e @ en) (d @ [(s ! 0, s ! 1)]))"
    using assms dl unfolding c1_def s_def en_def
    by (subst resolve_loop.simps) (cases w; simp add: Let_def cong: if_cong)
  with len show ?thesis by blast
qed

lemma resolve_loop_single_owner:
  "2 \<le> length c \<Longrightarrow> resolve_loop t c e d = (c', e', d')
    \<Longrightarrow> length c' < 2 \<or> card (player_id ` set c') < 2"
proof (induction "length c" arbitrary: c e d rule: less_induct)
  case less
  from resolve_loop_step [OF less.prems(1), of t e d] obtain c1 en call
    where len: "length c1 < length c"
      and eq: "resolve_loop t c e d =
        (if length c1 < 2 \<or> card (player_id ` set c1) < 2 then (c1, e @ en, d @ [call])
         else resolve_loop t c1 (e @ en) (d @ [call]))"
    by blast
  show ?case
  proof (cases "length c1 < 2 \<or> card (player_id ` set c1) < 2")
    case True
    with eq less.prems(2) show ?thesis by auto
  next
    case False
    with eq less.prems(2) have "resolve_loop t c1 (e @ en) (d @ [call]) = (c', e', d')" by simp
    moreover from False have "2 \<le> length c1" by simp
    ultimately show ?thesis using less.hyps [OF len] by blast
  qed
qed

lemma resolve_loop_duel_count:
  "2 \<le> length c \<Longrightarrow> resolve_loop t c e d = (c', e', d')
    \<Longrightarrow> length d < length d' \<and> length d' + 1 \<le> length d + length c"
proof (induction "length c" arbitrary: c e d rule: less_induct)
  case less
  from resolve_loop_step [OF less.prems(1), of t e d] obtain c1 en call
    where len: "length c1 < length c"
      and eq: "resolve_loop t c e d =
        (if length c1 < 2 \<or> card (player_id ` set c1) < 2 then (c1, e @ en, d @ [call])
         else resolve_loop t c1 (e @ en) (d @ [call]))"
    by blast
  show ?case
  proof (cases "length c1 < 2 \<or> card (player_id ` set c1) < 2")
    case True
    with eq less.prems have "d' = d @ [call]" by auto
    with less.prems(1) show ?thesis by simp
  next
    case False
    with eq less.prems(2) have r: "resolve_loop t c1 (e @ en) (d @ [call]) = (c', e', d')" by simp
    from False have "2 \<le> length c1" by simp
    from less.hyps [OF len this r] len show ?thesis by simp
  qed
qed

lemma card_owners_le_length: "card (player_id ` set xs) \<le> length xs"
  by (metis card_image_le card_length le_trans List.finite_set)

text \<open>
  C2. For a public area with pieces of at least two distinct owners,
  \<open>resolve_public_area\<close> returns (the loop is a total function, its recursion proved
  terminating on the length of the working set), it makes at least one and fewer duels
  than there are pieces, and the leftover pieces belong to at most one owner.
\<close>

theorem resolve_public_area_single_owner_left:
  assumes "2 \<le> card (player_id ` set public_area)"
  shows "\<exists>current_area elim.
      resolve_public_area public_area turn_order = (current_area, elim, None)
      \<and> card (player_id ` set current_area) \<le> 1
      \<and> 0 < length (duel_calls public_area turn_order)
      \<and> length (duel_calls public_area turn_order) < length public_area"
proof -
  from assms card_owners_le_length [of public_area] have len: "2 \<le> length public_area"
    by simp
  obtain c' e' d' where r: "resolve_loop turn_order public_area [] [] = (c', e', d')"
    by (cases "resolve_loop turn_order public_area [] []")
  from resolve_loop_single_owner [OF len r] card_owners_le_length [of c']
  have "card (player_id ` set c') \<le> 1" by auto
  moreover from resolve_loop_duel_count [OF len r]
  have "0 < length d'" "length d' < length public_area" by auto
  moreover from len r have "resolve_public_area public_area turn_order = (c', e', None)"
    and "duel_calls public_area turn_order = d'"
    by (auto simp add: resolve_public_area_def duel_calls_def)
  ultimately show ?thesis by simp
qed

theorem resolve_public_area_single_owner_left_witness:
  "2 \<le> card (player_id ` set [\<lparr>number = 5, player_id = 1\<rparr>, \<lparr>number = 3, player_id = 2\<rparr>,
        \<lparr>number = 0, player_id = 3\<rparr>])
   \<and> (\<exists>current_area elim.
      resolve_public_area [\<lparr>number = 5, player_id = 1\<rparr>, \<lparr>number = 3, player_id = 2\<rparr>,
        \<lparr>number = 0, player_id = 3\<rparr>] [1, 2, 3] = (current_area, elim, None)
      \<and> card (player_id ` set current_area) \<le> 1
      \<and> 0 < length (duel_calls [\<lparr>number = 5, player_id = 1\<rparr>, \<lparr>number = 3, player_id = 2\<rparr>,
        \<lparr>number = 0, player_id = 3\<rparr>] [1, 2, 3])
      \<and> length (duel_calls [\<lparr>number = 5, player_id = 1\<rparr>, \<lparr>number = 3, player_id = 2\<rparr>,
        \<lparr>number = 0, player_id = 3\<rparr>] [1, 2, 3]) < length [\<lparr>number = 5, player_id = 1\<rparr>, \<lparr>number = 3, player_id = 2\<rparr>,
        \<lparr>number = 0, player_id = 3\<rparr>])"
proof -
  have h: "2 \<le> card (player_id ` set [\<lparr>number = 5, player_id = 1\<rparr>,
      \<lparr>number = 3, player_id = 2\<rparr>, \<lparr>number = 0, player_id = 3\<rparr>])"
    by simp
  from resolve_public_area_single_owner_left [OF h, of "[1, 2, 3]"] h show ?thesis by blast
qed

text \<open>
  C3, as the code behaves. With the public area \<^verbatim>\<open>[{5, owner 1}, {3, owner 2}]\<close> and turn
  order \<^verbatim>\<open>[1, 2]\<close> the one duel is called with owner 1's piece first, owner 2 wins it
  (3 < 5), owner 1's digit 5 is the only elimination and no extra-action player is
  reported; the winning piece stays in the returned public area, which is therefore not
  empty.
\<close>

theorem scenario_B_winner_stays:
  "resolve_public_area [\<lparr>number = 5, player_id = 1\<rparr>, \<lparr>number = 3, player_id = 2\<rparr>] [1, 2]
      = ([\<lparr>number = 3, player_id = 2\<rparr>], [\<lparr>number = 5, player_id = 1\<rparr>], None)
   \<and> duel_calls [\<lparr>number = 5, player_id = 1\<rparr>, \<lparr>number = 3, player_id = 2\<rparr>] [1, 2]
      = [(\<lparr>number = 5, player_id = 1\<rparr>, \<lparr>number = 3, player_id = 2\<rparr>)]
   \<and> duel 5 1 3 2 = (Some 2, [1])"
  by code_simp

text \<open>The result of scenario B is not the one with an empty leftover public area.\<close>

theorem scenario_B_leftover_not_empty:
  "resolve_public_area [\<lparr>number = 5, player_id = 1\<rparr>, \<lparr>number = 3, player_id = 2\<rparr>] [1, 2]
    \<noteq> ([], [\<lparr>number = 5, player_id = 1\<rparr>], None)"
  by code_simp

text \<open>
  C4. For a public area of exactly one piece the code returns an empty public area, an
  empty eliminated list and the owner of the piece: no duel, no elimination, the owner
  reported, but the piece itself is not in the returned area.
\<close>

theorem single_piece_dropped:
  "resolve_public_area [x] turn_order = ([], [], Some (player_id x))
   \<and> x \<notin> set (fst (resolve_public_area [x] turn_order))"
  by (simp add: resolve_public_area_def)

text \<open>
  C5. The first two pieces after the sort by turn order may have the same owner. With
  the public area \<^verbatim>\<open>[{5, owner 1}, {4, owner 2}, {3, owner 1}]\<close> and turn order
  \<^verbatim>\<open>[1, 2, 3]\<close> the first call of \<open>duel\<close> gets the two pieces of owner 1; digit 5 of
  owner 1 is then recorded as eliminated twice and digit 3 of owner 1 is in neither
  result list.
\<close>

theorem same_owner_duel:
  "duel_calls [\<lparr>number = 5, player_id = 1\<rparr>, \<lparr>number = 4, player_id = 2\<rparr>,
               \<lparr>number = 3, player_id = 1\<rparr>] [1, 2, 3]
      = [(\<lparr>number = 5, player_id = 1\<rparr>, \<lparr>number = 3, player_id = 1\<rparr>),
         (\<lparr>number = 5, player_id = 1\<rparr>, \<lparr>number = 4, player_id = 2\<rparr>)]
   \<and> resolve_public_area [\<lparr>number = 5, player_id = 1\<rparr>, \<lparr>number = 4, player_id = 2\<rparr>,
               \<lparr>number = 3, player_id = 1\<rparr>] [1, 2, 3]
      = ([\<lparr>number = 4, player_id = 2\<rparr>],
         [\<lparr>number = 5, player_id = 1\<rparr>, \<lparr>number = 5, player_id = 1\<rparr>], None)"
  by code_simp

text \<open>
  C10. With two or more pieces in the input the extra-action component is \<^verbatim>\<open>None\<close>,
  also when the cascade leaves exactly one piece; a player is reported exactly when the
  input holds exactly one piece, and it is the owner of that piece.
\<close>

theorem extra_action_only_for_single_piece:
  "(2 \<le> length public_area \<longrightarrow> snd (snd (resolve_public_area public_area turn_order)) = None)
   \<and> (snd (snd (resolve_public_area public_area turn_order)) = Some p
        \<longleftrightarrow> (\<exists>x. public_area = [x] \<and> player_id x = p))"
proof -
  have a: "snd (snd (resolve_public_area public_area turn_order)) = None"
    if "2 \<le> length public_area"
    using that by (auto simp add: resolve_public_area_def split: prod.splits)
  have b: "snd (snd (resolve_public_area public_area turn_order)) = Some p
        \<longleftrightarrow> (\<exists>x. public_area = [x] \<and> player_id x = p)"
  proof (cases public_area)
    case Nil
    then show ?thesis by (simp add: resolve_public_area_def)
  next
    case (Cons x xs)
    show ?thesis
    proof (cases xs)
      case Nil
      with Cons show ?thesis by (simp add: resolve_public_area_def)
    next
      case (Cons y ys)
      with \<open>public_area = x # xs\<close> have "2 \<le> length public_area" by simp
      from a [OF this] Cons \<open>public_area = x # xs\<close> show ?thesis by simp
    qed
  qed
  from a b show ?thesis by blast
qed

theorem extra_action_only_for_single_piece_witness:
  "2 \<le> length [\<lparr>number = 5, player_id = 1\<rparr>, \<lparr>number = 3, player_id = 2\<rparr>]
   \<and> length (fst (resolve_public_area
        [\<lparr>number = 5, player_id = 1\<rparr>, \<lparr>number = 3, player_id = 2\<rparr>] [1, 2])) = 1
   \<and> snd (snd (resolve_public_area
        [\<lparr>number = 5, player_id = 1\<rparr>, \<lparr>number = 3, player_id = 2\<rparr>] [1, 2])) = None
   \<and> snd (snd (resolve_public_area [\<lparr>number = 5, player_id = 1\<rparr>] [1, 2])) = Some 1"
proof -
  have one: "length (fst (resolve_public_area
        [\<lparr>number = 5, player_id = 1\<rparr>, \<lparr>number = 3, player_id = 2\<rparr>] [1, 2])) = 1"
    by code_simp
  from extra_action_only_for_single_piece
    [of "[\<lparr>number = 5, player_id = 1\<rparr>, \<lparr>number = 3, player_id = 2\<rparr>]" "[1, 2]" 1]
    extra_action_only_for_single_piece [of "[\<lparr>number = 5, player_id = 1\<rparr>]" "[1, 2]" 1]
    one
  show ?thesis by simp
qed

section \<open>Properties of the turn advancement\<close>

lemma db_room_update_player_board [simp]:
  "db_room (update_player_board uid b e db) = db_room db"
  by (simp add: update_player_board_def)

lemma db_room_apply_eliminated [simp]: "db_room (apply_eliminated players elim db) = db_room db"
  unfolding apply_eliminated_def
  by (induction elim arbitrary: db) (auto split: option.splits)

lemma db_room_return_leftover [simp]:
  "db_room (return_leftover players leftover db) = db_room db"
  unfolding return_leftover_def
  by (induction leftover arbitrary: db) (auto split: option.splits)

lemma db_players_update_room [simp]:
  "db_players (update_room_status st db) = db_players db"
  "db_players (update_room_game_state order r t area db) = db_players db"
  by (simp_all add: update_room_status_def update_room_game_state_def)

text \<open>
  C6, as the code behaves. After an applied action (the turn order is then not empty) the
  end of the handler returns, and the next turn index is
  \<open>(current_turn + 1) mod player_count\<close>, a value in \<open>0 ..< player_count\<close>. When the
  action is processed, the room's turn pointer is set to that index and its round counter
  is the old one plus one exactly when the index is 0, and unchanged otherwise. When the
  index is 0 and the win detector reports a winner on the players as they are after the
  settlement, the game is finished instead: the status becomes \<^verbatim>\<open>finished\<close> and the
  room's turn pointer and round counter stay as they were.
\<close>

theorem game_action_tail_turn_and_round:
  assumes "room_turn_order room \<noteq> []"
  shows "\<exists>db' resp. game_action_tail room players area db = Inr (db', resp)
    \<and> (case resp of
         Action_processed t r \<Rightarrow>
           t = (room_current_turn room + 1) mod int (length (room_turn_order room))
           \<and> 0 \<le> t \<and> t < int (length (room_turn_order room))
           \<and> (r = room_current_round room + 1 \<longleftrightarrow> t = 0)
           \<and> (r = room_current_round room \<longleftrightarrow> t \<noteq> 0)
           \<and> room_current_turn (db_room db') = t
           \<and> room_current_round (db_room db') = r
           \<and> room_status (db_room db') = room_status (db_room db)
           \<and> (t = 0 \<longrightarrow> check_winner (players_data_of (db_players db')) \<in> {None, Some 0})
       | Game_finished w \<Rightarrow>
           (room_current_turn room + 1) mod int (length (room_turn_order room)) = 0
           \<and> check_winner (players_data_of (db_players db')) = Some w \<and> w \<noteq> 0
           \<and> room_current_turn (db_room db') = room_current_turn (db_room db)
           \<and> room_current_round (db_room db') = room_current_round (db_room db)
           \<and> room_status (db_room db') = ''finished'')"
proof -
  define n where "n = int (length (room_turn_order room))"
  define t where "t = (room_current_turn room + 1) mod n"
  from assms have n: "0 < n" by (simp add: n_def)
  then have range: "0 \<le> t" "t < n" by (simp_all add: t_def)
  show ?thesis
  proof (cases "t = 0")
    case False
    with assms range show ?thesis
      by (simp add: game_action_tail_def Let_def t_def n_def update_room_game_state_def)
  next
    case True
    obtain leftover elim extra where
      res: "resolve_public_area area (room_turn_order room) = (leftover, elim, extra)"
      by (cases "resolve_public_area area (room_turn_order room)")
    define db2 where "db2 = return_leftover players leftover (apply_eliminated players elim db)"
    show ?thesis
    proof (cases "check_winner (players_data_of (db_players db2))")
      case None
      with True assms res show ?thesis
        by (simp add: game_action_tail_def Let_def t_def n_def db2_def
            update_room_game_state_def)
    next
      case (Some w)
      with True assms res show ?thesis
        by (cases "w = 0")
          (simp_all add: game_action_tail_def Let_def t_def n_def db2_def
            update_room_game_state_def update_room_status_def)
    qed
  qed
qed

theorem game_action_tail_turn_and_round_witness:
  "room_turn_order \<lparr>room_status = ''playing'', room_current_round = 7, room_current_turn = 0,
        room_turn_order = [1, 2], room_public_area = []\<rparr> \<noteq> []
   \<and> game_action_tail
      \<lparr>room_status = ''playing'', room_current_round = 7, room_current_turn = 0,
        room_turn_order = [1, 2], room_public_area = []\<rparr>
      [(1, \<lparr>board = [(''1A'', Some 5), (''3A'', None)], eliminated = []\<rparr>),
       (2, \<lparr>board = [(''1A'', Some 4), (''3A'', None)], eliminated = [3]\<rparr>)]
      []
      \<lparr>db_room = \<lparr>room_status = ''playing'', room_current_round = 7, room_current_turn = 0,
        room_turn_order = [1, 2], room_public_area = []\<rparr>,
      db_players = [(1, \<lparr>board = [(''1A'', Some 5), (''3A'', None)], eliminated = []\<rparr>),
       (2, \<lparr>board = [(''1A'', Some 4), (''3A'', None)], eliminated = [3]\<rparr>)]\<rparr>
    = Inr (\<lparr>db_room = \<lparr>room_status = ''playing'', room_current_round = 7, room_current_turn = 1,
        room_turn_order = [1, 2], room_public_area = []\<rparr>,
      db_players = [(1, \<lparr>board = [(''1A'', Some 5), (''3A'', None)], eliminated = []\<rparr>),
       (2, \<lparr>board = [(''1A'', Some 4), (''3A'', None)], eliminated = [3]\<rparr>)]\<rparr>, Action_processed 1 7)
   \<and> game_action_tail
      \<lparr>room_status = ''playing'', room_current_round = 7, room_current_turn = 1,
        room_turn_order = [1, 2], room_public_area = []\<rparr>
      [(1, \<lparr>board = [(''1A'', Some 5), (''3A'', None)], eliminated = []\<rparr>),
       (2, \<lparr>board = [(''1A'', Some 4), (''3A'', None)], eliminated = [3]\<rparr>)]
      []
      \<lparr>db_room = \<lparr>room_status = ''playing'', room_current_round = 7, room_current_turn = 1,
        room_turn_order = [1, 2], room_public_area = []\<rparr>,
      db_players = [(1, \<lparr>board = [(''1A'', Some 5), (''3A'', None)], eliminated = []\<rparr>),
       (2, \<lparr>board = [(''1A'', Some 4), (''3A'', None)], eliminated = [3]\<rparr>)]\<rparr>
    = Inr (\<lparr>db_room = \<lparr>room_status = ''playing'', room_current_round = 8, room_current_turn = 0,
        room_turn_order = [1, 2], room_public_area = []\<rparr>,
      db_players = [(1, \<lparr>board = [(''1A'', Some 5), (''3A'', None)], eliminated = []\<rparr>),
       (2, \<lparr>board = [(''1A'', Some 4), (''3A'', None)], eliminated = [3]\<rparr>)]\<rparr>, Action_processed 0 8)"
proof -
  have h: "room_turn_order \<lparr>room_status = ''playing'', room_current_round = 7, room_current_turn = 0,
        room_turn_order = [1, 2], room_public_area = []\<rparr> \<noteq> []"
    by simp
  have first: "game_action_tail
      \<lparr>room_status = ''playing'', room_current_round = 7, room_current_turn = 0,
        room_turn_order = [1, 2], room_public_area = []\<rparr>
      [(1, \<lparr>board = [(''1A'', Some 5), (''3A'', None)], eliminated = []\<rparr>),
       (2, \<lparr>board = [(''1A'', Some 4), (''3A'', None)], eliminated = [3]\<rparr>)]
      []
      \<lparr>db_room = \<lparr>room_status = ''playing'', room_current_round = 7, room_current_turn = 0,
        room_turn_order = [1, 2], room_public_area = []\<rparr>,
      db_players = [(1, \<lparr>board = [(''1A'', Some 5), (''3A'', None)], eliminated = []\<rparr>),
       (2, \<lparr>board = [(''1A'', Some 4), (''3A'', None)], eliminated = [3]\<rparr>)]\<rparr>
    = Inr (\<lparr>db_room = \<lparr>room_status = ''playing'', room_current_round = 7, room_current_turn = 1,
        room_turn_order = [1, 2], room_public_area = []\<rparr>,
      db_players = [(1, \<lparr>board = [(''1A'', Some 5), (''3A'', None)], eliminated = []\<rparr>),
       (2, \<lparr>board = [(''1A'', Some 4), (''3A'', None)], eliminated = [3]\<rparr>)]\<rparr>, Action_processed 1 7)"
    by code_simp
  have second: "game_action_tail
      \<lparr>room_status = ''playing'', room_current_round = 7, room_current_turn = 1,
        room_turn_order = [1, 2], room_public_area = []\<rparr>
      [(1, \<lparr>board = [(''1A'', Some 5), (''3A'', None)], eliminated = []\<rparr>),
       (2, \<lparr>board = [(''1A'', Some 4), (''3A'', None)], eliminated = [3]\<rparr>)]
      []
      \<lparr>db_room = \<lparr>room_status = ''playing'', room_current_round = 7, room_current_turn = 1,
        room_turn_order = [1, 2], room_public_area = []\<rparr>,
      db_players = [(1, \<lparr>board = [(''1A'', Some 5), (''3A'', None)], eliminated = []\<rparr>),
       (2, \<lparr>board = [(''1A'', Some 4), (''3A'', None)], eliminated = [3]\<rparr>)]\<rparr>
    = Inr (\<lparr>db_room = \<lparr>room_status = ''playing'', room_current_round = 8, room_current_turn = 0,
        room_turn_order = [1, 2], room_public_area = []\<rparr>,
      db_players = [(1, \<lparr>board = [(''1A'', Some 5), (''3A'', None)], eliminated = []\<rparr>),
       (2, \<lparr>board = [(''1A'', Some 4), (''3A'', None)], eliminated = [3]\<rparr>)]\<rparr>, Action_processed 0 8)"
    by code_simp
  from game_action_tail_turn_and_round [OF h, of "[(1, \<lparr>board = [(''1A'', Some 5), (''3A'', None)], eliminated = []\<rparr>),
       (2, \<lparr>board = [(''1A'', Some 4), (''3A'', None)], eliminated = [3]\<rparr>)]" "[]"
      "\<lparr>db_room = \<lparr>room_status = ''playing'', room_current_round = 7, room_current_turn = 0,
        room_turn_order = [1, 2], room_public_area = []\<rparr>,
      db_players = [(1, \<lparr>board = [(''1A'', Some 5), (''3A'', None)], eliminated = []\<rparr>),
       (2, \<lparr>board = [(''1A'', Some 4), (''3A'', None)], eliminated = [3]\<rparr>)]\<rparr>"]
    h first second
  show ?thesis by simp
qed

text \<open>
  On the action that ends the game the next turn index is 0 and the round counter of the
  room is not incremented: with round 7, turn 1 of the order \<^verbatim>\<open>[1, 2]\<close> and player 2
  without a piece on the board, the room is finished with round 7 and turn 1.
\<close>

theorem game_ending_action_keeps_round:
  "(room_current_turn \<lparr>room_status = ''playing'', room_current_round = 7, room_current_turn = 1,
        room_turn_order = [1, 2], room_public_area = []\<rparr> + 1)
      mod int (length (room_turn_order \<lparr>room_status = ''playing'', room_current_round = 7, room_current_turn = 1,
        room_turn_order = [1, 2], room_public_area = []\<rparr>)) = 0
   \<and> game_action_tail
      \<lparr>room_status = ''playing'', room_current_round = 7, room_current_turn = 1,
        room_turn_order = [1, 2], room_public_area = []\<rparr>
      [(1, \<lparr>board = [(''1A'', Some 5), (''3A'', None)], eliminated = []\<rparr>),
       (2, \<lparr>board = [(''1A'', None), (''3A'', None)], eliminated = [3]\<rparr>)]
      []
      \<lparr>db_room = \<lparr>room_status = ''playing'', room_current_round = 7, room_current_turn = 1,
        room_turn_order = [1, 2], room_public_area = []\<rparr>,
      db_players = [(1, \<lparr>board = [(''1A'', Some 5), (''3A'', None)], eliminated = []\<rparr>),
       (2, \<lparr>board = [(''1A'', None), (''3A'', None)], eliminated = [3]\<rparr>)]\<rparr>
    = Inr (\<lparr>db_room = \<lparr>room_status = ''finished'', room_current_round = 7, room_current_turn = 1,
        room_turn_order = [1, 2], room_public_area = []\<rparr>,
      db_players = [(1, \<lparr>board = [(''1A'', Some 5), (''3A'', None)], eliminated = []\<rparr>),
       (2, \<lparr>board = [(''1A'', None), (''3A'', None)], eliminated = [3]\<rparr>)]\<rparr>, Game_finished 1)"
  by code_simp

section \<open>Properties of the win detector\<close>

lemma fold_active_players:
  "fold (\<lambda>(pid, data) active. if 0 < board_count (board data) then active @ [pid] else active)
      xs acc
   = acc @ map fst (filter (\<lambda>(pid, data). 0 < board_count (board data)) xs)"
  by (induction xs arbitrary: acc) (auto split: prod.splits)

lemma board_count_pos: "0 < board_count b \<longleftrightarrow> (\<exists>(c, v) \<in> set b. v \<noteq> None)"
proof -
  have "0 < board_count b \<longleftrightarrow> (\<exists>v \<in> set (map snd b). v \<noteq> None)"
    by (simp add: board_count_def filter_empty_conv)
  also have "\<dots> \<longleftrightarrow> (\<exists>(c, v) \<in> set b. v \<noteq> None)"
    by force
  finally show ?thesis .
qed

lemma check_winner_active_list:
  "check_winner pd =
    (let l = map fst (filter (\<lambda>(pid, data). is_active data) pd)
     in if length l = 1 then Some (l ! 0) else None)"
  unfolding check_winner_def fold_active_players
  by (simp add: board_count_pos is_active_def)

lemma set_active_list:
  "set (map fst (filter (\<lambda>(pid, data). is_active data) pd)) = active_set pd"
  by (force simp add: active_set_def)

text \<open>
  C7. For a dictionary of player records (distinct player ids) \<open>check_winner\<close> returns
  player \<open>p\<close> exactly when \<open>p\<close> is the one and only active player, and returns
  \<^verbatim>\<open>None\<close> exactly when the number of active players is not one (zero, or two or more).
\<close>

theorem check_winner_iff_one_active:
  assumes "distinct (map fst players_data)"
  shows "(check_winner players_data = Some p \<longleftrightarrow> active_set players_data = {p})
       \<and> (check_winner players_data = None \<longleftrightarrow> card (active_set players_data) \<noteq> 1)"
proof -
  define l where "l = map fst (filter (\<lambda>(pid, data). is_active data) players_data)"
  have d: "distinct l"
    unfolding l_def using assms by (rule distinct_map_filter)
  have s: "set l = active_set players_data"
    unfolding l_def by (rule set_active_list)
  have c: "check_winner players_data = (if length l = 1 then Some (l ! 0) else None)"
    by (simp add: check_winner_active_list l_def)
  have card: "card (active_set players_data) = length l"
    using d s distinct_card by fastforce
  have one: "length l = 1 \<longleftrightarrow> (\<exists>x. l = [x])"
    by (cases l) auto
  have "check_winner players_data = Some p \<longleftrightarrow> l = [p]"
    unfolding c using one by auto
  also have "\<dots> \<longleftrightarrow> active_set players_data = {p}"
  proof
    assume "l = [p]" with s show "active_set players_data = {p}" by auto
  next
    assume a: "active_set players_data = {p}"
    with card have "length l = 1" by simp
    then obtain x where "l = [x]" using one by blast
    with s a show "l = [p]" by auto
  qed
  finally have first: "check_winner players_data = Some p \<longleftrightarrow> active_set players_data = {p}" .
  have second: "check_winner players_data = None \<longleftrightarrow> card (active_set players_data) \<noteq> 1"
    unfolding c card by simp
  from first second show ?thesis by blast
qed

theorem check_winner_iff_one_active_witness:
  "distinct (map fst [(1 :: int, \<lparr>board = [(''1A'', Some 5), (''1B'', None)], eliminated = []\<rparr>),
                      (2, \<lparr>board = [(''1A'', None), (''1B'', None)], eliminated = [3]\<rparr>)])
   \<and> check_winner [(1, \<lparr>board = [(''1A'', Some 5), (''1B'', None)], eliminated = []\<rparr>),
                     (2, \<lparr>board = [(''1A'', None), (''1B'', None)], eliminated = [3]\<rparr>)] = Some 1
   \<and> active_set [(1, \<lparr>board = [(''1A'', Some 5), (''1B'', None)], eliminated = []\<rparr>),
                   (2, \<lparr>board = [(''1A'', None), (''1B'', None)], eliminated = [3]\<rparr>)] = {1}"
proof -
  have d: "distinct (map fst [(1 :: int, \<lparr>board = [(''1A'', Some 5), (''1B'', None)], eliminated = []\<rparr>),
                      (2, \<lparr>board = [(''1A'', None), (''1B'', None)], eliminated = [3]\<rparr>)])"
    by simp
  have w: "check_winner [(1, \<lparr>board = [(''1A'', Some 5), (''1B'', None)], eliminated = []\<rparr>),
                     (2, \<lparr>board = [(''1A'', None), (''1B'', None)], eliminated = [3]\<rparr>)] = Some 1"
    by code_simp
  from check_winner_iff_one_active [OF d, of 1] d w show ?thesis by blast
qed

section \<open>Properties of the board model\<close>

lemma list_index_in_range:
  "list_index xs x = Inr i \<Longrightarrow> 0 \<le> i \<and> i < int (length xs) \<and> xs ! nat i = x"
proof (induction xs arbitrary: i)
  case Nil
  then show ?case by simp
next
  case (Cons y ys)
  show ?case
  proof (cases "y = x")
    case True
    with Cons.prems show ?thesis by simp
  next
    case False
    with Cons.prems obtain j where j: "list_index ys x = Inr j" and i: "i = j + 1"
      by (auto split: sum.splits)
    from Cons.IH [OF j] i show ?thesis
      by (simp add: nat_add_distrib)
  qed
qed

lemma list_index_member: "x \<in> set xs \<Longrightarrow> \<exists>i. list_index xs x = Inr i"
  by (induction xs) auto

lemma py_getitem_list_index: "list_index xs x = Inr i \<Longrightarrow> py_getitem xs i = Inr x"
  using list_index_in_range [of xs x i] by (simp add: py_getitem_def)

lemma int_of_char_digit: "r < 10 \<Longrightarrow> int_of_char (char_of (48 + r)) = Inr (int r)"
  by (simp add: int_of_char_def Let_def)

lemma str_int_digit: "r < 10 \<Longrightarrow> str_int (int r) = [char_of (48 + r)]"
  by (simp add: str_int_def, subst str_nat.simps) simp

lemma get_cell_position_cell:
  "r < 10 \<Longrightarrow> list_index COL_NAMES k = Inr i
    \<Longrightarrow> get_cell_position (cell r k) = Inr (int r - 1, i)"
  apply (simp only: get_cell_position_def cell_def py_getitem_def)
  apply (simp only: list.size length_Cons)
  apply (simp add: int_of_char_digit del: of_nat_Suc)
  done

lemma get_cell_id_cell:
  assumes "r < 10" "list_index COL_NAMES k = Inr i"
  shows "get_cell_id (int r - 1) i = Inr (cell r k)"
proof -
  have "str_int (int r - 1 + 1) = [char_of (48 + r)]"
    using str_int_digit [OF assms(1)] by simp
  with py_getitem_list_index [OF assms(2)] show ?thesis
    by (simp only: get_cell_id_def cell_def sum.case append.simps)
qed

lemma get_front_cell_of_cell:
  assumes "r \<in> {1, 2, 3}" "k \<in> set COL_NAMES"
  shows "get_front_cell (cell r k) = Inr (if r = 1 then ''public'' else cell (r - 1) k)"
proof -
  from list_index_member [OF assms(2)] obtain i where i: "list_index COL_NAMES k = Inr i" ..
  from assms(1) have r: "r < 10" "0 < r" by auto
  have pos: "get_cell_position (cell r k) = Inr (int r - 1, i)"
    using r(1) i by (rule get_cell_position_cell)
  show ?thesis
  proof (cases "r = 1")
    case True
    with pos show ?thesis by (simp add: get_front_cell_def)
  next
    case False
    from r have small: "r - 1 < 10" by simp
    from r have "int (r - 1) = int r - 1" by simp
    with get_cell_id_cell [OF small i]
    have "get_cell_id (int r - 1 - 1) i = Inr (cell (r - 1) k)" by (simp only:)
    with pos False r(2) show ?thesis by (simp add: get_front_cell_def)
  qed
qed

lemma empty_cell_iff:
  "can_move_forward b c = Inr (False, ''No piece at this position'') \<longleftrightarrow> \<not> occupied b c"
  by (auto simp add: can_move_forward_def occupied_def split: sum.splits option.splits)

text \<open>
  C8. The move fails with the empty-cell message exactly when no piece occupies the named
  cell (for any string \<open>c\<close>). For the cell in row \<open>r\<close> (1, 2 or 3) and column \<open>k\<close> (A to F),
  when it is occupied: from row 1 the move is permitted with destination \<^verbatim>\<open>'public'\<close>;
  from rows 2 and 3 the destination is the cell of the same column one row closer, the
  move fails with the blocked message exactly when that cell is occupied and is permitted
  with that cell returned exactly when it is not.
\<close>

theorem can_move_forward_legality:
  assumes "r \<in> {1, 2, 3}" "k \<in> set COL_NAMES"
  shows "(can_move_forward b c = Inr (False, ''No piece at this position'') \<longleftrightarrow> \<not> occupied b c)
    \<and> (occupied b (cell r k) \<and> r = 1 \<longrightarrow>
          can_move_forward b (cell r k) = Inr (True, ''public''))
    \<and> (occupied b (cell r k) \<and> r \<noteq> 1 \<longrightarrow>
          (can_move_forward b (cell r k) = Inr (False, ''Target cell is occupied'')
            \<longleftrightarrow> occupied b (cell (r - 1) k))
        \<and> (can_move_forward b (cell r k) = Inr (True, cell (r - 1) k)
            \<longleftrightarrow> \<not> occupied b (cell (r - 1) k)))"
proof -
  have pub: "cell (r - 1) k \<noteq> ''public''"
    by (simp add: cell_def)
  have occ: "occupied b x \<longleftrightarrow> map_of b x \<noteq> None \<and> map_of b x \<noteq> Some None" for x
    by (auto simp add: occupied_def split: option.splits)
  have moved: "can_move_forward b (cell r k) =
      (if r = 1 then Inr (True, ''public'')
       else if occupied b (cell (r - 1) k) then Inr (False, ''Target cell is occupied'')
       else Inr (True, cell (r - 1) k))"
    if "occupied b (cell r k)"
    using that get_front_cell_of_cell [OF assms] pub
    by (auto simp add: can_move_forward_def occ)
  have dest: "(can_move_forward b (cell r k) = Inr (False, ''Target cell is occupied'')
            \<longleftrightarrow> occupied b (cell (r - 1) k))
        \<and> (can_move_forward b (cell r k) = Inr (True, cell (r - 1) k)
            \<longleftrightarrow> \<not> occupied b (cell (r - 1) k))"
    if "occupied b (cell r k)" "r \<noteq> 1"
    using moved [OF that(1)] that(2) by simp
  have front: "can_move_forward b (cell r k) = Inr (True, ''public'')"
    if "occupied b (cell r k)" "r = 1"
    using moved [OF that(1)] that(2) by simp
  from empty_cell_iff [of b c] front dest show ?thesis
    by blast
qed

theorem can_move_forward_legality_witness:
  "(2 :: nat) \<in> {1, 2, 3} \<and> CHR ''A'' \<in> set COL_NAMES
   \<and> occupied [(''1A'', Some 5), (''2A'', Some 3), (''3A'', None)] (cell 2 (CHR ''A''))
   \<and> (2 :: nat) \<noteq> 1
   \<and> occupied [(''1A'', Some 5), (''2A'', Some 3), (''3A'', None)] (cell (2 - 1) (CHR ''A''))
   \<and> can_move_forward [(''1A'', Some 5), (''2A'', Some 3), (''3A'', None)] (cell 2 (CHR ''A''))
        = Inr (False, ''Target cell is occupied'')
   \<and> can_move_forward [(''1A'', Some 5), (''2A'', Some 3), (''3A'', None)] (cell 1 (CHR ''A''))
        = Inr (True, ''public'')
   \<and> \<not> occupied [(''1A'', Some 5), (''2A'', Some 3), (''3A'', None)] ''3A''
   \<and> can_move_forward [(''1A'', Some 5), (''2A'', Some 3), (''3A'', None)] ''3A''
        = Inr (False, ''No piece at this position'')"
proof -
  have k: "CHR ''A'' \<in> set COL_NAMES"
    by (simp add: COL_NAMES_def)
  have o2: "occupied [(''1A'', Some 5), (''2A'', Some 3), (''3A'', None)] (cell 2 (CHR ''A''))"
    by code_simp
  have o1: "occupied [(''1A'', Some 5), (''2A'', Some 3), (''3A'', None)] (cell (2 - 1) (CHR ''A''))"
    by code_simp
  have o1': "occupied [(''1A'', Some 5), (''2A'', Some 3), (''3A'', None)] (cell 1 (CHR ''A''))"
    by code_simp
  have o3: "\<not> occupied [(''1A'', Some 5), (''2A'', Some 3), (''3A'', None)] ''3A''"
    by code_simp
  from can_move_forward_legality [of 2 "CHR ''A''"
      "[(''1A'', Some 5), (''2A'', Some 3), (''3A'', None)]" "''3A''"]
    can_move_forward_legality [of 1 "CHR ''A''"
      "[(''1A'', Some 5), (''2A'', Some 3), (''3A'', None)]" "''3A''"]
    k o2 o1 o1' o3
  show ?thesis by simp
qed

section \<open>Properties of the board summary\<close>

lemma map_of_summary:
  "map_of (get_board_summary b False) c =
    map_option (\<lambda>num. if num \<noteq> None then Some Occupied else None) (map_of b c)"
  by (induction b) (auto simp add: get_board_summary_def)

lemma keys_summary: "map fst (get_board_summary b False) = map fst b"
  by (induction b) (auto simp add: get_board_summary_def)

lemma alist_eq_by_lookup:
  assumes "map fst xs = map fst ys" "distinct (map fst xs)" "map_of xs = map_of ys"
  shows "xs = ys"
proof (rule nth_equalityI)
  show len: "length xs = length ys"
    using assms(1) by (metis length_map)
  fix i assume i: "i < length xs"
  have k: "fst (xs ! i) = fst (ys ! i)"
    using assms(1) i len by (metis nth_map)
  from assms(1, 2) have dy: "distinct (map fst ys)" by simp
  have "(fst (xs ! i), snd (xs ! i)) \<in> set xs"
    using i by simp
  with assms(2) have x: "map_of xs (fst (xs ! i)) = Some (snd (xs ! i))"
    by (simp only: map_of_eq_Some_iff)
  have "(fst (ys ! i), snd (ys ! i)) \<in> set ys"
    using i len by simp
  with dy have y: "map_of ys (fst (ys ! i)) = Some (snd (ys ! i))"
    by (simp only: map_of_eq_Some_iff)
  from x y k assms(3) show "xs ! i = ys ! i"
    by (simp add: prod_eq_iff)
qed

text \<open>
  C9. Two boards over the same cells with the same set of occupied cells have the same
  redacted summary, whatever digits they hold: the summaries are equal as dictionaries,
  and equal as lists as well when the two boards list their cells in the same order.
\<close>

theorem get_board_summary_hides_digits:
  assumes "fst ` set b1 = fst ` set b2"
    and "\<forall>c. occupied b1 c \<longleftrightarrow> occupied b2 c"
  shows "map_of (get_board_summary b1 False) = map_of (get_board_summary b2 False)
    \<and> (map fst b1 = map fst b2 \<and> distinct (map fst b1)
          \<longrightarrow> get_board_summary b1 False = get_board_summary b2 False)"
proof -
  have same: "map_of (get_board_summary b1 False) c = map_of (get_board_summary b2 False) c"
    for c
  proof -
    from assms(1) have "(map_of b1 c = None) = (map_of b2 c = None)"
      by (simp add: map_of_eq_None_iff)
    moreover from assms(2) have "occupied b1 c \<longleftrightarrow> occupied b2 c" by blast
    ultimately show ?thesis
      by (auto simp add: map_of_summary occupied_def split: option.splits)
  qed
  then have maps: "map_of (get_board_summary b1 False) = map_of (get_board_summary b2 False)"
    by (rule ext)
  have lists: "get_board_summary b1 False = get_board_summary b2 False"
    if keys: "map fst b1 = map fst b2" and d: "distinct (map fst b1)"
  proof (rule alist_eq_by_lookup)
    show "map fst (get_board_summary b1 False) = map fst (get_board_summary b2 False)"
      using keys by (simp only: keys_summary)
    show "distinct (map fst (get_board_summary b1 False))"
      using d by (simp only: keys_summary)
    show "map_of (get_board_summary b1 False) = map_of (get_board_summary b2 False)"
      by (rule maps)
  qed
  from maps lists show ?thesis by blast
qed

theorem get_board_summary_hides_digits_witness:
  "fst ` set [(''1A'', Some (5 :: int)), (''1B'', None)] = fst ` set [(''1A'', Some (0 :: int)), (''1B'', None)]
   \<and> (\<forall>c. occupied [(''1A'', Some 5), (''1B'', None)] c
          \<longleftrightarrow> occupied [(''1A'', Some 0), (''1B'', None)] c)
   \<and> map fst [(''1A'', Some (5 :: int)), (''1B'', None)] = map fst [(''1A'', Some (0 :: int)), (''1B'', None)]
   \<and> distinct (map fst [(''1A'', Some (5 :: int)), (''1B'', None)])
   \<and> get_board_summary [(''1A'', Some 5), (''1B'', None)] False
      = get_board_summary [(''1A'', Some 0), (''1B'', None)] False
   \<and> get_board_summary [(''1A'', Some 0), (''1B'', None)] False
      = [(''1A'', Some Occupied), (''1B'', None)]"
proof -
  have a: "fst ` set [(''1A'', Some (5 :: int)), (''1B'', None)]
      = fst ` set [(''1A'', Some (0 :: int)), (''1B'', None)]"
    by simp
  have b: "\<forall>c. occupied [(''1A'', Some 5), (''1B'', None)] c
          \<longleftrightarrow> occupied [(''1A'', Some 0), (''1B'', None)] c"
    by (simp add: occupied_def)
  have c: "get_board_summary [(''1A'', Some 0), (''1B'', None)] False
      = [(''1A'', Some Occupied), (''1B'', None)]"
    by (simp add: get_board_summary_def)
  from get_board_summary_hides_digits [OF a b] a b c show ?thesis by simp
qed

end
